theory Spec2Isabelle
  imports Main "HOL-Library.AList" "HOL-Library.Monad_Syntax"
begin

section \<open>Python text primitives\<close>

text \<open>
  The converter of \<^verbatim>\<open>InfluxDB_pve_firewall.py\<close> works on Python \<^verbatim>\<open>str\<close> values.
  A \<^typ>\<open>char\<close> of this development stands for one code point below 256, so that
  \<^typ>\<open>string\<close> is Python text over the Latin-1 range and \<^const>\<open>length\<close> counts code
  points. The character classes are the ones CPython uses for \<^verbatim>\<open>str\<close> patterns and
  for \<^verbatim>\<open>str.strip()\<close>, \<^verbatim>\<open>str.split()\<close> and \<^verbatim>\<open>str.lower()\<close>, restricted to that
  range.
\<close>

definition LF :: char where
  "LF = CHR 0x0A"

definition CR :: char where
  "CR = CHR 0x0D"

definition QUOTE :: char where
  "QUOTE = CHR 0x27"

definition is_space :: "char \<Rightarrow> bool" where
  \<comment> \<open>\<^verbatim>\<open>\s\<close>, and the characters \<^verbatim>\<open>strip()\<close> and \<^verbatim>\<open>split()\<close> treat as whitespace\<close>
  "is_space c =
     (let n = (of_char c :: nat)
      in (9 \<le> n \<and> n \<le> 13) \<or> (28 \<le> n \<and> n \<le> 32) \<or> n = 133 \<or> n = 160)"

definition is_digit :: "char \<Rightarrow> bool" where
  \<comment> \<open>\<^verbatim>\<open>\d\<close>\<close>
  "is_digit c = (let n = (of_char c :: nat) in 48 \<le> n \<and> n \<le> 57)"

definition is_word :: "char \<Rightarrow> bool" where
  \<comment> \<open>\<^verbatim>\<open>\w\<close>: alphanumeric code points and the underscore\<close>
  "is_word c =
     (let n = (of_char c :: nat)
      in (48 \<le> n \<and> n \<le> 57) \<or> (65 \<le> n \<and> n \<le> 90) \<or> n = 95 \<or> (97 \<le> n \<and> n \<le> 122) \<or>
         n = 170 \<or> n = 178 \<or> n = 179 \<or> n = 181 \<or> n = 185 \<or> n = 186 \<or>
         (188 \<le> n \<and> n \<le> 190) \<or> (192 \<le> n \<and> n \<le> 214) \<or> (216 \<le> n \<and> n \<le> 246) \<or>
         248 \<le> n)"

definition lower_char :: "char \<Rightarrow> char" where
  "lower_char c =
     (let n = (of_char c :: nat)
      in if (65 \<le> n \<and> n \<le> 90) \<or> (192 \<le> n \<and> n \<le> 214) \<or> (216 \<le> n \<and> n \<le> 222)
         then char_of (n + 32) else c)"

definition lower :: "string \<Rightarrow> string" where
  \<comment> \<open>\<^verbatim>\<open>s.lower()\<close>\<close>
  "lower s = map lower_char s"

definition strip :: "string \<Rightarrow> string" where
  \<comment> \<open>\<^verbatim>\<open>s.strip()\<close>: whitespace removed at both ends\<close>
  "strip s = rev (dropWhile is_space (rev (dropWhile is_space s)))"

fun partition_at :: "string \<Rightarrow> string \<Rightarrow> (string \<times> string) option" where
  \<comment> \<open>the text before and after the leftmost occurrence of a non-empty separator\<close>
  "partition_at sep [] = None"
| "partition_at sep (c # cs) =
     (if take (length sep) (c # cs) = sep then Some ([], drop (length sep) (c # cs))
      else case partition_at sep cs of
             None \<Rightarrow> None
           | Some (before, after) \<Rightarrow> Some (c # before, after))"

definition split1 :: "string \<Rightarrow> string \<Rightarrow> string list" where
  \<comment> \<open>\<^verbatim>\<open>s.split(sep, 1)\<close> for a non-empty \<^verbatim>\<open>sep\<close>, the only way the source calls it\<close>
  "split1 sep s =
     (case partition_at sep s of None \<Rightarrow> [s] | Some (before, after) \<Rightarrow> [before, after])"

fun split_from :: "string \<Rightarrow> string \<Rightarrow> string list" where
  \<comment> \<open>the tokens of a text, the first one begun by the accumulated characters\<close>
  "split_from tok [] = (if tok = [] then [] else [tok])"
| "split_from tok (c # cs) =
     (if is_space c then (if tok = [] then split_from [] cs else tok # split_from [] cs)
      else split_from (tok @ [c]) cs)"

definition split_ws :: "string \<Rightarrow> string list" where
  \<comment> \<open>\<^verbatim>\<open>s.split()\<close>: the maximal runs of non-whitespace\<close>
  "split_ws s = split_from [] s"

fun join :: "string \<Rightarrow> string list \<Rightarrow> string" where
  \<comment> \<open>\<^verbatim>\<open>sep.join(xs)\<close>\<close>
  "join sep [] = []"
| "join sep [x] = x"
| "join sep (x # y # xs) = x @ sep @ join sep (y # xs)"

definition sql_escape :: "string \<Rightarrow> string" where
  \<comment> \<open>\<^verbatim>\<open>s.replace("'", "''")\<close>\<close>
  "sql_escape s = concat (map (\<lambda>c. if c = QUOTE then [QUOTE, QUOTE] else [c]) s)"

section \<open>The header pattern\<close>

text \<open>
  \<^verbatim>\<open>log_pattern\<close> is the regular expression
  \<^verbatim>\<open>(\S+)\s(\d{2}/\w{3}/\d{4}:\d{2}:\d{2}:\d{2}\s-\d{4})\s(\w+):\s(.*)\<close>
  with the groups \<^verbatim>\<open>pvefw_chain\<close>, \<^verbatim>\<open>log_timestamp\<close>, \<^verbatim>\<open>action\<close> and \<^verbatim>\<open>kv_pairs\<close>, used
  through \<^verbatim>\<open>match\<close>: anchored at the start of the text, not at its end.

  The pattern is deterministic, so the matcher reads it from left to right. A greedy
  \<^verbatim>\<open>\S+\<close> that must be followed by \<^verbatim>\<open>\s\<close> can only be the maximal run of non-whitespace
  (after a shorter run the next character is not whitespace); the timestamp group has a
  fixed width of 26 characters; a greedy \<^verbatim>\<open>\w+\<close> that must be followed by a colon can only
  be the maximal run of word characters; \<^verbatim>\<open>.*\<close> takes everything up to a line feed.
\<close>

datatype cls = Digit | Word | Space | Lit char | Range char char | AnyChar

fun cls_ok :: "cls \<Rightarrow> char \<Rightarrow> bool" where
  "cls_ok Digit c = is_digit c"
| "cls_ok Word c = is_word c"
| "cls_ok Space c = is_space c"
| "cls_ok (Lit l) c = (c = l)"
| "cls_ok (Range a b) c = ((of_char a :: nat) \<le> of_char c \<and> (of_char c :: nat) \<le> of_char b)"
| "cls_ok AnyChar c = True"

definition timestamp_pattern :: "cls list" where
  \<comment> \<open>\<^verbatim>\<open>\d{2}/\w{3}/\d{4}:\d{2}:\d{2}:\d{2}\s-\d{4}\<close>\<close>
  "timestamp_pattern =
     [Digit, Digit, Lit (CHR ''/''), Word, Word, Word, Lit (CHR ''/''),
      Digit, Digit, Digit, Digit, Lit (CHR '':''), Digit, Digit, Lit (CHR '':''),
      Digit, Digit, Lit (CHR '':''), Digit, Digit, Space, Lit (CHR ''-''),
      Digit, Digit, Digit, Digit]"

record header =
  pvefw_chain :: string
  log_timestamp :: string
  action :: string
  kv_pairs :: string

definition run1 :: "(char \<Rightarrow> bool) \<Rightarrow> string \<Rightarrow> (string \<times> string) option" where
  \<comment> \<open>a greedy \<^verbatim>\<open>X+\<close>: the maximal run of the class, which may not be empty, and the rest\<close>
  "run1 p s = (if takeWhile p s = [] then None else Some (takeWhile p s, dropWhile p s))"

definition one :: "(char \<Rightarrow> bool) \<Rightarrow> string \<Rightarrow> string option" where
  \<comment> \<open>one character of the class; the rest\<close>
  "one p s = (case s of [] \<Rightarrow> None | c # r \<Rightarrow> if p c then Some r else None)"

definition fixed :: "cls list \<Rightarrow> string \<Rightarrow> (string \<times> string) option" where
  \<comment> \<open>a fixed-width sequence of classes; the matched text and the rest\<close>
  "fixed cs s =
     (if list_all2 cls_ok cs (take (length cs) s)
      then Some (take (length cs) s, drop (length cs) s) else None)"

definition log_pattern :: "string \<Rightarrow> header option" where
  \<comment> \<open>\<^verbatim>\<open>log_pattern.match(s)\<close>, with the groups of \<^verbatim>\<open>groupdict()\<close>\<close>
  "log_pattern s =
     do {
       (chain, r1) \<leftarrow> run1 (\<lambda>c. \<not> is_space c) s;
       r2 \<leftarrow> one is_space r1;
       (ts, r3) \<leftarrow> fixed timestamp_pattern r2;
       r4 \<leftarrow> one is_space r3;
       (act, r5) \<leftarrow> run1 is_word r4;
       r6 \<leftarrow> one (\<lambda>c. c = CHR '':'') r5;
       r7 \<leftarrow> one is_space r6;
       Some \<lparr>pvefw_chain = chain, log_timestamp = ts, action = act,
             kv_pairs = takeWhile (\<lambda>c. c \<noteq> LF) r7\<rparr>
     }"

definition clean_line :: "string \<Rightarrow> string" where
  \<comment> \<open>\<^verbatim>\<open>'PVEFW-HOST-IN' + line.strip().split('PVEFW-HOST-IN', 1)[-1]\<close>\<close>
  "clean_line line = ''PVEFW-HOST-IN'' @ last (split1 ''PVEFW-HOST-IN'' (strip line))"

section \<open>The key-value tail and the record of a line\<close>

text \<open>
  A Python \<^verbatim>\<open>dict\<close> keeps its keys in insertion order, and storing under a key that is
  present replaces the value where it stands: an association list under
  \<^const>\<open>AList.update\<close>. The values of \<^verbatim>\<open>data\<close> are strings, and \<^verbatim>\<open>None\<close> for a
  timestamp that could not be converted.
\<close>

datatype pyval = PyStr string | PyNone

fun str :: "pyval \<Rightarrow> string" where
  \<comment> \<open>\<^verbatim>\<open>str(val)\<close>\<close>
  "str (PyStr s) = s"
| "str PyNone = ''None''"

type_synonym pydict = "(string \<times> pyval) list"

fun dict_of_pairs :: "string list list \<Rightarrow> (string \<times> string) list \<Rightarrow> (string \<times> string) list option" where
  \<comment> \<open>\<^verbatim>\<open>dict(iterable)\<close>: an element that is not a pair raises \<^verbatim>\<open>ValueError\<close>\<close>
  "dict_of_pairs [] d = Some d"
| "dict_of_pairs (p # ps) d =
     (case p of [k, v] \<Rightarrow> dict_of_pairs ps (AList.update k v d) | _ \<Rightarrow> None)"

definition parse_kv :: "string \<Rightarrow> (string \<times> string) list option" where
  \<comment> \<open>\<^verbatim>\<open>dict(pair.split('=', 1) for pair in kv_pairs_str.split())\<close>; \<^const>\<open>None\<close> is the \<^verbatim>\<open>ValueError\<close>\<close>
  "parse_kv kv_pairs_str = dict_of_pairs (map (split1 ''='') (split_ws kv_pairs_str)) []"

definition groupdict :: "header \<Rightarrow> pydict" where
  \<comment> \<open>\<^verbatim>\<open>match.groupdict()\<close> after \<^verbatim>\<open>data.pop('kv_pairs')\<close>\<close>
  "groupdict h =
     [(''pvefw_chain'', PyStr (pvefw_chain h)),
      (''log_timestamp'', PyStr (log_timestamp h)),
      (''action'', PyStr (action h))]"

definition dict_update :: "pydict \<Rightarrow> (string \<times> string) list \<Rightarrow> pydict" where
  \<comment> \<open>\<^verbatim>\<open>data.update(kv_pairs)\<close>\<close>
  "dict_update data kv = foldl (\<lambda>d (k, v). AList.update k (PyStr v) d) data kv"

section \<open>The timestamp conversion\<close>

text \<open>
  \<^verbatim>\<open>datetime.datetime.strptime(s, '%d/%b/%Y:%H:%M:%S %z')\<close> is library code. CPython
  (3.11, C locale) turns the format into the regular expression
  \<^verbatim>\<open>(3[0-1]|[1-2]\d|0[1-9]|[1-9]| [1-9])/(jan|...|dec)/(\d\d\d\d):(2[0-3]|[0-1]\d|\d):([0-5]\d|\d):(6[0-1]|[0-5]\d|\d)\s+([+-]\d\d:?[0-5]\d(:?[0-5]\d(\.\d{1,6})?)?|Z)\<close>,
  matched ignoring case (but for \<^verbatim>\<open>Z\<close>) at the start of the text; the match has to
  reach the end of the text, the colons of the offset have to be used consistently, and
  the fields have to make a date, a time of day and an offset below 24 hours. Every
  failure is a \<^verbatim>\<open>ValueError\<close>, here \<^const>\<open>None\<close>. Each alternation is followed by a
  character none of its alternatives can continue with, so the first alternative that
  matches is the one the match keeps.
\<close>

record datetime =
  year :: nat
  month :: nat
  day :: nat
  hour :: nat
  minute :: nat
  second :: nat

fun first_of :: "cls list list \<Rightarrow> string \<Rightarrow> (string \<times> string) option" where
  \<comment> \<open>an alternation of fixed-width alternatives, tried in order\<close>
  "first_of [] s = None"
| "first_of (p # ps) s = (case fixed p s of Some r \<Rightarrow> Some r | None \<Rightarrow> first_of ps s)"

definition opt :: "(string \<Rightarrow> ('a \<times> string) option) \<Rightarrow> 'a \<Rightarrow> string \<Rightarrow> 'a \<times> string" where
  \<comment> \<open>a greedy optional part, with the value it has when it is absent\<close>
  "opt p absent s = (case p s of Some r \<Rightarrow> r | None \<Rightarrow> (absent, s))"

definition int_of :: "string \<Rightarrow> nat" where
  \<comment> \<open>\<^verbatim>\<open>int(s)\<close> for a text of decimal digits and at most one leading blank\<close>
  "int_of s = foldl (\<lambda>n c. 10 * n + (of_char c - 48)) 0 (dropWhile (\<lambda>c. c = CHR '' '') s)"

definition a_month :: "string list" where
  "a_month = [''jan'', ''feb'', ''mar'', ''apr'', ''may'', ''jun'',
              ''jul'', ''aug'', ''sep'', ''oct'', ''nov'', ''dec'']"

definition month_number :: "string \<Rightarrow> nat option" where
  "month_number b = map_of (zip a_month [1 ..< 13]) (lower b)"

definition is_leap :: "nat \<Rightarrow> bool" where
  "is_leap y = (y mod 4 = 0 \<and> (0 < y mod 100 \<or> y mod 400 = 0))"

definition days_in_month :: "nat \<Rightarrow> nat \<Rightarrow> nat" where
  "days_in_month y m =
     (if m = 2 then (if is_leap y then 29 else 28)
      else if m = 4 \<or> m = 6 \<or> m = 9 \<or> m = 11 then 30 else 31)"

definition utc_offset_seconds :: "string \<Rightarrow> ((bool \<times> bool) \<times> string) option" where
  \<comment> \<open>the optional \<^verbatim>\<open>(:?[0-5]\d(\.\d{1,6})?)\<close> of an offset: whether it has a colon\<close>
  "utc_offset_seconds s =
     do {
       let (colon, r1) = opt (\<lambda>t. map_option (Pair True) (one (\<lambda>c. c = CHR '':'') t)) False s;
       (ss, r2) \<leftarrow> fixed [Range (CHR ''0'') (CHR ''5''), Digit] r1;
       let r3 = (case one (\<lambda>c. c = CHR ''.'') r2 of
                   None \<Rightarrow> r2
                 | Some f \<Rightarrow> if takeWhile is_digit (take 6 f) = [] then r2
                             else dropWhile is_digit (take 6 f) @ drop 6 f);
       Some ((True, colon), r3)
     }"

definition utc_offset :: "string \<Rightarrow> (nat \<times> string) option" where
  \<comment> \<open>\<^verbatim>\<open>%z\<close>: the hours of the offset (which decide whether it is below 24 hours), and the rest\<close>
  "utc_offset s =
     (case one (\<lambda>c. c = CHR ''Z'') s of
        Some r \<Rightarrow> Some (0, r)
      | None \<Rightarrow>
          do {
            r1 \<leftarrow> one (\<lambda>c. c = CHR ''+'' \<or> c = CHR ''-'') s;
            (hh, r2) \<leftarrow> fixed [Digit, Digit] r1;
            let (colon1, r3) = opt (\<lambda>t. map_option (Pair True) (one (\<lambda>c. c = CHR '':'') t)) False r2;
            (mm, r4) \<leftarrow> fixed [Range (CHR ''0'') (CHR ''5''), Digit] r3;
            let ((seconds, colon2), r5) = opt utc_offset_seconds (False, False) r4;
            if seconds \<and> colon1 \<noteq> colon2 then None else Some (int_of hh, r5)
          })"

definition strptime :: "string \<Rightarrow> datetime option" where
  "strptime s =
     do {
       (d, r1) \<leftarrow> first_of [[Lit (CHR ''3''), Range (CHR ''0'') (CHR ''1'')],
                              [Range (CHR ''1'') (CHR ''2''), Digit],
                              [Lit (CHR ''0''), Range (CHR ''1'') (CHR ''9'')],
                              [Range (CHR ''1'') (CHR ''9'')],
                              [Lit (CHR '' ''), Range (CHR ''1'') (CHR ''9'')]] s;
       r2 \<leftarrow> one (\<lambda>c. c = CHR ''/'') r1;
       (b, r3) \<leftarrow> fixed [AnyChar, AnyChar, AnyChar] r2;
       m \<leftarrow> month_number b;
       r4 \<leftarrow> one (\<lambda>c. c = CHR ''/'') r3;
       (y, r5) \<leftarrow> fixed [Digit, Digit, Digit, Digit] r4;
       r6 \<leftarrow> one (\<lambda>c. c = CHR '':'') r5;
       (H, r7) \<leftarrow> first_of [[Lit (CHR ''2''), Range (CHR ''0'') (CHR ''3'')],
                              [Range (CHR ''0'') (CHR ''1''), Digit],
                              [Digit]] r6;
       r8 \<leftarrow> one (\<lambda>c. c = CHR '':'') r7;
       (M, r9) \<leftarrow> first_of [[Range (CHR ''0'') (CHR ''5''), Digit], [Digit]] r8;
       r10 \<leftarrow> one (\<lambda>c. c = CHR '':'') r9;
       (S, r11) \<leftarrow> first_of [[Lit (CHR ''6''), Range (CHR ''0'') (CHR ''1'')],
                               [Range (CHR ''0'') (CHR ''5''), Digit],
                               [Digit]] r10;
       (ws, r12) \<leftarrow> run1 is_space r11;
       (offset_hours, r13) \<leftarrow> utc_offset r12;
       if r13 \<noteq> [] then None
       else if int_of y < 1 \<or> days_in_month (int_of y) m < int_of d \<or> 59 < int_of S
               \<or> 24 \<le> offset_hours then None
       else Some \<lparr>year = int_of y, month = m, day = int_of d,
                  hour = int_of H, minute = int_of M, second = int_of S\<rparr>
     }"

definition two_digits :: "nat \<Rightarrow> string" where
  "two_digits n = [char_of (48 + n div 10 mod 10), char_of (48 + n mod 10)]"

definition strftime :: "datetime \<Rightarrow> string" where
  \<comment> \<open>\<^verbatim>\<open>dt_obj.strftime('%Y-%m-%d %H:%M:%S')\<close>; the C library of Linux does not pad \<^verbatim>\<open>%Y\<close>\<close>
  "strftime dt =
     dropWhile (\<lambda>c. c = CHR ''0'') (two_digits (year dt div 100) @ two_digits (year dt))
     @ ''-'' @ two_digits (month dt) @ ''-'' @ two_digits (day dt) @ '' '' @
     two_digits (hour dt) @ '':'' @ two_digits (minute dt) @ '':'' @ two_digits (second dt)"

definition convert_timestamp :: "pydict \<Rightarrow> pydict" where
  \<comment> \<open>the \<^verbatim>\<open>try\<close> around \<^verbatim>\<open>strptime\<close>: \<^verbatim>\<open>data['log_timestamp']\<close> becomes the converted text, or \<^verbatim>\<open>None\<close>\<close>
  "convert_timestamp data =
     AList.update ''log_timestamp''
       (case map_of data ''log_timestamp'' of
          Some (PyStr s) \<Rightarrow> (case strptime s of Some dt_obj \<Rightarrow> PyStr (strftime dt_obj) | None \<Rightarrow> PyNone)
        | _ \<Rightarrow> PyNone)
       data"

definition set_flag :: "pydict \<Rightarrow> string \<Rightarrow> pydict" where
  \<comment> \<open>\<^verbatim>\<open>if flag in data: data[flag] = '1'\<close>\<close>
  "set_flag data flag = (if flag \<in> set (map fst data) then AList.update flag (PyStr ''1'') data else data)"

definition flags :: "string list" where
  "flags = [''SYN'', ''ACK'', ''PSH'', ''RST'', ''FIN'']"

definition record_of :: "header \<Rightarrow> (string \<times> string) list \<Rightarrow> pydict" where
  \<comment> \<open>\<^verbatim>\<open>data\<close> after the update with the pairs, the timestamp conversion and the loop over the flags\<close>
  "record_of h kv = foldl set_flag (convert_timestamp (dict_update (groupdict h) kv)) flags"

datatype skip = Header_Mismatch | KV_Mismatch

definition parse_line :: "string \<Rightarrow> skip + pydict" where
  \<comment> \<open>the body of the loop up to the record \<^verbatim>\<open>data\<close>; \<^const>\<open>Inl\<close> is a \<^verbatim>\<open>continue\<close>\<close>
  "parse_line line =
     (case log_pattern (clean_line line) of
        None \<Rightarrow> Inl Header_Mismatch
      | Some h \<Rightarrow>
          (case parse_kv (kv_pairs h) of
             None \<Rightarrow> Inl KV_Mismatch
           | Some kv \<Rightarrow>
               Inr (record_of h kv)))"

section \<open>The INSERT statement of a record\<close>

definition columns_to_insert :: "pydict \<Rightarrow> string list" where
  "columns_to_insert data = ''raw_log'' # map (\<lambda>(col, val). lower col) data"

definition values_to_insert :: "string \<Rightarrow> pydict \<Rightarrow> string list" where
  "values_to_insert line data =
     sql_escape (strip line) # map (\<lambda>(col, val). sql_escape (str val)) data"

definition insert_sql :: "string \<Rightarrow> string list \<Rightarrow> string list \<Rightarrow> string" where
  "insert_sql table_name columns vals =
     ''INSERT INTO '' @ table_name @ '' ('' @ join '', '' columns @ '') VALUES ('' @ [QUOTE] @
     join ([QUOTE] @ '', '' @ [QUOTE]) vals @ [QUOTE] @ '');'' @ [LF]"

definition quoted :: "string \<Rightarrow> string" where
  \<comment> \<open>a value as it stands in the VALUES list: between single quotes\<close>
  "quoted v = [QUOTE] @ v @ [QUOTE]"

definition statement :: "string \<Rightarrow> string \<Rightarrow> skip + string" where
  \<comment> \<open>what one line adds to the output: its INSERT statement, or nothing\<close>
  "statement table_name line =
     (case parse_line line of
        Inl why \<Rightarrow> Inl why
      | Inr data \<Rightarrow>
          Inr (insert_sql table_name (columns_to_insert data) (values_to_insert line data)))"

section \<open>The CREATE TABLE statement\<close>

definition all_columns :: "string list" where
  "all_columns =
     [''pvefw_chain'', ''log_timestamp'', ''action'', ''IN'', ''PHYSIN'', ''PHYSOUT'', ''MAC'',
      ''SRC'', ''DST'', ''LEN'', ''TOS'', ''PREC'', ''TTL'', ''ID'', ''PROTO'', ''SPT'', ''DPT'',
      ''WINDOW'', ''RES'', ''SYN'', ''URGP'', ''ACK'', ''PSH'', ''RST'', ''FIN'', ''TYPE'', ''CODE'']"

definition column_types :: "(string \<times> string) list" where
  "column_types =
     [(''id'', ''INT AUTO_INCREMENT PRIMARY KEY''),
      (''pvefw_chain'', ''VARCHAR(50)''),
      (''log_timestamp'', ''DATETIME''),
      (''action'', ''VARCHAR(20)''),
      (''IN'', ''VARCHAR(20)''),
      (''PHYSIN'', ''VARCHAR(20)''),
      (''PHYSOUT'', ''VARCHAR(20)''),
      (''MAC'', ''VARCHAR(50)''),
      (''SRC'', ''VARCHAR(45)''),
      (''DST'', ''VARCHAR(45)''),
      (''LEN'', ''INT''),
      (''TOS'', ''VARCHAR(10)''),
      (''PREC'', ''VARCHAR(10)''),
      (''TTL'', ''INT''),
      (''ID'', ''INT''),
      (''PROTO'', ''VARCHAR(10)''),
      (''SPT'', ''INT''),
      (''DPT'', ''INT''),
      (''WINDOW'', ''INT''),
      (''RES'', ''VARCHAR(10)''),
      (''SYN'', ''BOOLEAN''),
      (''URGP'', ''INT''),
      (''ACK'', ''BOOLEAN''),
      (''PSH'', ''BOOLEAN''),
      (''RST'', ''BOOLEAN''),
      (''FIN'', ''BOOLEAN''),
      (''TYPE'', ''INT''),
      (''CODE'', ''INT'')]"

definition fixed_columns :: "string list" where
  "fixed_columns = [''pvefw_chain'', ''log_timestamp'', ''action'']"

definition subscript :: "(string \<times> string) list \<Rightarrow> string \<Rightarrow> string" where
  \<comment> \<open>\<^verbatim>\<open>column_types[col]\<close>, only ever applied to a key of the catalog (see \<open>subscripts_present\<close>)\<close>
  "subscript d k = the (map_of d k)"

definition get :: "(string \<times> string) list \<Rightarrow> string \<Rightarrow> string \<Rightarrow> string" where
  \<comment> \<open>\<^verbatim>\<open>column_types.get(col, fallback)\<close>\<close>
  "get d k fallback = (case map_of d k of Some v \<Rightarrow> v | None \<Rightarrow> fallback)"

definition column_line :: "string \<times> string \<Rightarrow> string" where
  \<comment> \<open>one written line of the column list: four blanks, the name, the type, a comma\<close>
  "column_line = (\<lambda>(name, sql_type). ''    '' @ name @ '' '' @ sql_type @ '','' @ [LF])"

definition create_table_columns :: "(string \<times> string) list" where
  \<comment> \<open>the columns the three groups of \<^verbatim>\<open>f_out.write\<close> calls list, before \<^verbatim>\<open>raw_log\<close>\<close>
  "create_table_columns =
     [(''id'', subscript column_types ''id'')]
     @ map (\<lambda>col. (lower col, subscript column_types col)) fixed_columns
     @ map (\<lambda>col. (lower col, get column_types col ''VARCHAR(255)''))
         (filter (\<lambda>col. col \<notin> set fixed_columns) all_columns)"

definition create_table_sql :: "string \<Rightarrow> string" where
  "create_table_sql table_name =
     ''-- Auto-generated CREATE TABLE statement for PVE Firewall logs'' @ [LF] @
     ''CREATE TABLE IF NOT EXISTS '' @ table_name @ '' ('' @ [LF] @
     concat (map column_line create_table_columns) @
     ''    raw_log TEXT'' @ [LF] @
     '');'' @ [LF, LF]"

definition dml_comment :: string where
  "dml_comment = ''-- DML to insert data'' @ [LF]"

section \<open>The driver\<close>

text \<open>
  The loop over the lines of the input threads two things: the text written to
  \<^verbatim>\<open>f_out\<close> so far, and what was printed on the console.
\<close>

record run_state =
  f_out :: string
  console :: "string list"

definition loop_body :: "string \<Rightarrow> run_state \<Rightarrow> string \<Rightarrow> run_state" where
  "loop_body table_name st line =
     (case statement table_name line of
        Inl Header_Mismatch \<Rightarrow>
          st\<lparr>console := console st @ [''Warning: Skipping malformed line: '' @ strip line]\<rparr>
      | Inl KV_Mismatch \<Rightarrow>
          st\<lparr>console := console st @
                [''Warning: Could not parse key-value pairs in line: '' @ strip line]\<rparr>
      | Inr sql \<Rightarrow> st\<lparr>f_out := f_out st @ sql\<rparr>)"

definition emitted :: "string \<Rightarrow> string \<Rightarrow> string" where
  \<comment> \<open>the text a line contributes to the output file\<close>
  "emitted table_name line = (case statement table_name line of Inl why \<Rightarrow> [] | Inr sql \<Rightarrow> sql)"

definition convert_lines :: "string \<Rightarrow> string \<Rightarrow> string \<Rightarrow> string list \<Rightarrow> run_state" where
  \<comment> \<open>the body of the \<^verbatim>\<open>with\<close> block, on the lines the input file yields\<close>
  "convert_lines input_file output_file table_name lines =
     (let st = foldl (loop_body table_name)
                 \<lparr>f_out = create_table_sql table_name @ dml_comment,
                  console = [''Reading from '' @ [QUOTE] @ input_file @ [QUOTE] @
                             '' and writing to '' @ [QUOTE] @ output_file @ [QUOTE] @ ''...'']\<rparr>
                 lines
      in st\<lparr>console := console st @ [''Successfully generated SQL file.'']\<rparr>)"

text \<open>
  A text file yields its lines with universal newlines: \<^verbatim>\<open>\r\n\<close> and \<^verbatim>\<open>\r\<close> are read as
  \<^verbatim>\<open>\n\<close>, and every line but possibly the last ends with \<^verbatim>\<open>\n\<close>.
\<close>

fun universal_newlines :: "string \<Rightarrow> string" where
  "universal_newlines [] = []"
| "universal_newlines [c] = [if c = CR then LF else c]"
| "universal_newlines (c # d # s) =
     (if c = CR \<and> d = LF then LF # universal_newlines s
      else (if c = CR then LF else c) # universal_newlines (d # s))"

fun lines_from :: "string \<Rightarrow> string \<Rightarrow> string list" where
  "lines_from cur [] = (if cur = [] then [] else [cur])"
| "lines_from cur (c # s) =
     (if c = LF then (cur @ [c]) # lines_from [] s else lines_from (cur @ [c]) s)"

definition readlines :: "string \<Rightarrow> string list" where
  "readlines content = lines_from [] (universal_newlines content)"

text \<open>
  The file system is a map from paths to the text of the files that exist. Opening the
  input for reading raises \<^verbatim>\<open>FileNotFoundError\<close> when the path is not there; opening the
  output for writing creates the file or empties it, and what was written is in the
  file when the \<^verbatim>\<open>with\<close> block is left. The input is opened first. The result is the
  file system after the run and the lines printed.
\<close>

type_synonym filesystem = "string \<rightharpoonup> string"

definition generate_sql_from_pvefw_log ::
  "string \<Rightarrow> string \<Rightarrow> string \<Rightarrow> filesystem \<Rightarrow> filesystem \<times> string list" where
  "generate_sql_from_pvefw_log input_file output_file table_name fs =
     (case fs input_file of
        None \<Rightarrow>
          (fs, [''Error: The file '' @ [QUOTE] @ input_file @ [QUOTE] @ '' was not found.''])
      | Some _ \<Rightarrow>
          let opened = fs(output_file \<mapsto> []);
              content = (case opened input_file of Some text \<Rightarrow> text | None \<Rightarrow> []);
              st = convert_lines input_file output_file table_name (readlines content)
          in (opened(output_file \<mapsto> f_out st), console st))"

section \<open>Facts about the header pattern\<close>

lemma digit_not_space: "is_digit c \<Longrightarrow> \<not> is_space c"
  by (auto simp: is_digit_def is_space_def Let_def)

lemma word_not_space: "is_word c \<Longrightarrow> \<not> is_space c"
  by (auto simp: is_word_def is_space_def Let_def)

lemma run1_SomeD:
  "run1 p s = Some (a, r) \<Longrightarrow> s = a @ r \<and> a \<noteq> [] \<and> list_all p a \<and> (r = [] \<or> \<not> p (hd r))"
  by (auto simp: run1_def list_all_iff split: if_splits dest: set_takeWhileD hd_dropWhile)

lemma one_SomeD: "one p s = Some r \<Longrightarrow> \<exists>c. s = c # r \<and> p c"
  by (auto simp: one_def split: list.splits if_splits)

lemma fixed_SomeD: "fixed cs s = Some (a, r) \<Longrightarrow> s = a @ r \<and> list_all2 cls_ok cs a"
  by (auto simp: fixed_def split: if_splits)

lemma log_pattern_sound:
  assumes "log_pattern s = Some h"
  shows "\<exists>w1 w2 w3 rest.
           s = pvefw_chain h @ [w1] @ log_timestamp h @ [w2] @ action h @ '':'' @ [w3] @ rest \<and>
           pvefw_chain h \<noteq> [] \<and> list_all (\<lambda>c. \<not> is_space c) (pvefw_chain h) \<and> is_space w1 \<and>
           list_all2 cls_ok timestamp_pattern (log_timestamp h) \<and> is_space w2 \<and>
           action h \<noteq> [] \<and> list_all is_word (action h) \<and> is_space w3 \<and>
           kv_pairs h = takeWhile (\<lambda>c. c \<noteq> LF) rest"
proof -
  from assms obtain chain r1 r2 ts r3 r4 act r5 r6 r7 where
    chain: "run1 (\<lambda>c. \<not> is_space c) s = Some (chain, r1)" and
    w1: "one is_space r1 = Some r2" and
    ts: "fixed timestamp_pattern r2 = Some (ts, r3)" and
    w2: "one is_space r3 = Some r4" and
    act: "run1 is_word r4 = Some (act, r5)" and
    colon: "one (\<lambda>c. c = CHR '':'') r5 = Some r6" and
    w3: "one is_space r6 = Some r7" and
    h: "h = \<lparr>pvefw_chain = chain, log_timestamp = ts, action = act,
              kv_pairs = takeWhile (\<lambda>c. c \<noteq> LF) r7\<rparr>"
    unfolding log_pattern_def by (auto split: Option.bind_splits)
  from one_SomeD [OF w1] obtain c1 where c1: "r1 = c1 # r2" "is_space c1" by blast
  from one_SomeD [OF w2] obtain c2 where c2: "r3 = c2 # r4" "is_space c2" by blast
  from one_SomeD [OF colon] have c: "r5 = CHR '':'' # r6" by blast
  from one_SomeD [OF w3] obtain c3 where c3: "r6 = c3 # r7" "is_space c3" by blast
  have "s = chain @ [c1] @ ts @ [c2] @ act @ '':'' @ [c3] @ r7"
    using run1_SomeD [OF chain] run1_SomeD [OF act] fixed_SomeD [OF ts] c1 c2 c c3 by simp
  then show ?thesis
    using run1_SomeD [OF chain] run1_SomeD [OF act] fixed_SomeD [OF ts] c1 c2 c3 h
    by (intro exI [of _ c1] exI [of _ c2] exI [of _ c3] exI [of _ r7]) simp
qed

lemma lit_not_space:
  "\<not> is_space (CHR ''/'')" "\<not> is_space (CHR '':'')" "\<not> is_space (CHR ''-'')"
  by (simp_all add: is_space_def)

lemma timestamp_has_space:
  "list_all2 cls_ok timestamp_pattern ts \<Longrightarrow> length (filter is_space ts) = 1"
  by (auto simp: timestamp_pattern_def list_all2_Cons1 digit_not_space word_not_space lit_not_space)

lemma filter_none: "list_all (\<lambda>c. \<not> p c) xs \<Longrightarrow> filter p xs = []"
  by (induction xs) auto

lemma log_pattern_spaces:
  assumes "log_pattern s = Some h"
  shows "4 \<le> length (filter is_space s)"
proof -
  from log_pattern_sound [OF assms] obtain w1 w2 w3 rest where
    s: "s = pvefw_chain h @ [w1] @ log_timestamp h @ [w2] @ action h @ '':'' @ [w3] @ rest" and
    sp: "is_space w1" "is_space w2" "is_space w3" and
    ts: "list_all2 cls_ok timestamp_pattern (log_timestamp h)"
    by blast
  show ?thesis
    by (subst s) (simp add: sp timestamp_has_space [OF ts])
qed

lemma partition_at_SomeD:
  "partition_at sep s = Some (b, a) \<Longrightarrow> s = b @ sep @ a"
proof (induction s arbitrary: b)
  case Nil
  then show ?case by simp
next
  case (Cons c cs)
  show ?case
  proof (cases "take (length sep) (c # cs) = sep")
    case True
    with Cons.prems have "b = []" "a = drop (length sep) (c # cs)" by simp_all
    with True show ?thesis by (metis append_Nil append_take_drop_id)
  next
    case False
    with Cons.prems obtain b' where "partition_at sep cs = Some (b', a)" "b = c # b'"
      by (auto split: option.splits)
    with Cons.IH show ?thesis by simp
  qed
qed

lemma last_split1_suffix: "\<exists>pre. s = pre @ last (split1 sep s)"
  by (auto simp: split1_def split: option.splits dest: partition_at_SomeD intro: exI [of _ "[]"])

lemma marker_spaces: "filter is_space ''PVEFW-HOST-IN'' = []"
  by (simp add: is_space_def)

lemma clean_line_spaces:
  "length (filter is_space (clean_line line)) \<le> length (filter is_space (strip line))"
proof -
  obtain pre where "strip line = pre @ last (split1 ''PVEFW-HOST-IN'' (strip line))"
    using last_split1_suffix by blast
  then have "length (filter is_space (strip line)) =
      length (filter is_space pre) + length (filter is_space (last (split1 ''PVEFW-HOST-IN'' (strip line))))"
    by (metis filter_append length_append)
  then show ?thesis
    unfolding clean_line_def filter_append marker_spaces by simp
qed

lemma strip_spaces: "length (filter is_space (strip s)) \<le> length (filter is_space s)"
proof -
  have a: "length (filter p (dropWhile q xs)) \<le> length (filter p xs)" for p q and xs :: string
    by (induction xs) auto
  have "length (filter is_space (strip s)) = length (filter is_space (dropWhile is_space (rev (dropWhile is_space s))))"
    by (simp add: strip_def rev_filter [symmetric])
  also have "\<dots> \<le> length (filter is_space (rev (dropWhile is_space s)))" by (rule a)
  also have "\<dots> = length (filter is_space (dropWhile is_space s))" by (simp add: rev_filter [symmetric])
  also have "\<dots> \<le> length (filter is_space s)" by (rule a)
  finally show ?thesis .
qed

lemma few_spaces_skipped:
  "length (filter is_space (strip line)) < 4 \<Longrightarrow> log_pattern (clean_line line) = None"
  using log_pattern_spaces [of "clean_line line"] clean_line_spaces [of line]
  by (cases "log_pattern (clean_line line)") auto

text \<open>
  With \<open>log_pattern_sound\<close>, the next lemma says that the matcher accepts exactly the
  texts that begin with a word of the regular expression, and that the groups are the
  parts of that word: a text has at most one such decomposition.
\<close>

lemma run1_append:
  "a \<noteq> [] \<Longrightarrow> list_all p a \<Longrightarrow> \<not> p c \<Longrightarrow> run1 p (a @ c # r) = Some (a, c # r)"
  by (simp add: run1_def list_all_iff takeWhile_append2 dropWhile_append2)

lemma fixed_append:
  "list_all2 cls_ok cs a \<Longrightarrow> fixed cs (a @ r) = Some (a, r)"
  by (simp add: fixed_def list_all2_lengthD)

lemma log_pattern_complete:
  assumes "chain \<noteq> []" and "list_all (\<lambda>c. \<not> is_space c) chain" and "is_space w1"
    and "list_all2 cls_ok timestamp_pattern ts" and "is_space w2"
    and "act \<noteq> []" and "list_all is_word act" and "is_space w3"
  shows "log_pattern (chain @ [w1] @ ts @ [w2] @ act @ '':'' @ [w3] @ rest) =
           Some \<lparr>pvefw_chain = chain, log_timestamp = ts, action = act,
                 kv_pairs = takeWhile (\<lambda>c. c \<noteq> LF) rest\<rparr>"
proof -
  have nw: "\<not> is_word (CHR '':'')" by (simp add: is_word_def)
  have 1: "run1 (\<lambda>c. \<not> is_space c) (chain @ w1 # ts @ w2 # act @ CHR '':'' # w3 # rest) =
      Some (chain, w1 # ts @ w2 # act @ CHR '':'' # w3 # rest)"
    using assms(1,2,3) by (intro run1_append) simp_all
  have 2: "fixed timestamp_pattern (ts @ w2 # act @ CHR '':'' # w3 # rest) =
      Some (ts, w2 # act @ CHR '':'' # w3 # rest)"
    using assms(4) by (rule fixed_append)
  have 3: "run1 is_word (act @ CHR '':'' # w3 # rest) = Some (act, CHR '':'' # w3 # rest)"
    using assms(6,7) nw by (rule run1_append)
  show ?thesis
    using assms(3,5,8) by (simp add: log_pattern_def 1 2 3 one_def)
qed

section \<open>Facts about the driver\<close>

lemma statement_header_mismatch:
  "log_pattern (clean_line line) = None \<Longrightarrow> statement t line = Inl Header_Mismatch"
  by (simp add: statement_def parse_line_def)

lemma strip_trailing: "list_all is_space trail \<Longrightarrow> strip (xs @ trail) = strip xs"
proof -
  assume t: "list_all is_space trail"
  then have r: "dropWhile is_space (rev trail @ ys) = dropWhile is_space ys" for ys
    by (simp add: dropWhile_append list_all_iff)
  show ?thesis
  proof (cases "list_all is_space xs")
    case True
    with t have d: "dropWhile is_space (xs @ trail) = []" "dropWhile is_space xs = []"
      by (simp_all add: dropWhile_eq_Nil_conv list_all_iff)
    show ?thesis unfolding strip_def d by simp
  next
    case False
    then have d: "dropWhile is_space (xs @ trail) = dropWhile is_space xs @ trail"
      by (auto simp: dropWhile_append list_all_iff)
    show ?thesis unfolding strip_def d rev_append r by simp
  qed
qed

lemma f_out_foldl:
  "f_out (foldl (loop_body t) st lines) = f_out st @ concat (map (emitted t) lines)"
proof (induction lines arbitrary: st)
  case Nil
  then show ?case by simp
next
  case (Cons l ls)
  have "f_out (loop_body t st l) = f_out st @ emitted t l"
    by (simp add: loop_body_def emitted_def split: sum.splits skip.splits)
  with Cons.IH [of "loop_body t st l"] show ?case by simp
qed

lemma f_out_convert_lines:
  "f_out (convert_lines i out t lines) =
     create_table_sql t @ dml_comment @ concat (map (emitted t) lines)"
  by (simp add: convert_lines_def Let_def f_out_foldl)


section \<open>Facts about the key-value tail\<close>

lemma partition_at_None: "c \<notin> set s \<Longrightarrow> partition_at [c] s = None"
  by (induction s) auto

lemma split1_no_sep: "c \<notin> set s \<Longrightarrow> split1 [c] s = [s]"
  by (simp add: split1_def partition_at_None)

lemma dict_of_pairs_None:
  "p \<in> set ps \<Longrightarrow> length p \<noteq> 2 \<Longrightarrow> dict_of_pairs ps d = None"
proof (induction ps arbitrary: d)
  case Nil
  then show ?case by simp
next
  case (Cons q qs)
  show ?case
  proof (cases "length q = 2")
    case True
    then obtain k v where "q = [k, v]"
      by (cases q; cases "tl q") auto
    with Cons True show ?thesis by auto
  next
    case False
    then show ?thesis by (auto split: list.splits)
  qed
qed

lemma parse_kv_None:
  assumes "tok \<in> set (split_ws kv)" and "CHR ''='' \<notin> set tok"
  shows "parse_kv kv = None"
proof -
  have "split1 ''='' tok \<in> set (map (split1 ''='') (split_ws kv))"
    using assms(1) by simp
  moreover have "length (split1 ''='' tok) \<noteq> 2"
    using split1_no_sep [OF assms(2)] by simp
  ultimately show ?thesis
    unfolding parse_kv_def by (rule dict_of_pairs_None)
qed

section \<open>Facts about the record and its INSERT statement\<close>

lemma keys_update_present:
  "k \<in> set (map fst d) \<Longrightarrow> map fst (AList.update k v d) = map fst d"
  by (simp add: update_keys)

lemma keys_update_take:
  "n \<le> length d \<Longrightarrow> take n (map fst (AList.update k v d)) = take n (map fst d)"
  by (simp add: update_keys)

lemma length_update_ge: "length d \<le> length (AList.update k v d)"
  by (induction d) auto

lemma dict_update_keys_take:
  "n \<le> length d \<Longrightarrow> take n (map fst (dict_update d kv)) = take n (map fst d)"
  unfolding dict_update_def
proof (induction kv arbitrary: d)
  case Nil
  then show ?case by simp
next
  case (Cons p kv)
  obtain k v where p: "p = (k, v)" by (cases p)
  have "n \<le> length (AList.update k (PyStr v) d)"
    using Cons.prems length_update_ge [of d k "PyStr v"] by simp
  from Cons.IH [OF this] show ?case
    using Cons.prems by (simp add: p keys_update_take)
qed

lemma dict_update_keys:
  "set (map fst (dict_update d kv)) = set (map fst d) \<union> fst ` set kv"
  unfolding dict_update_def
proof (induction kv arbitrary: d)
  case Nil
  then show ?case by simp
next
  case (Cons p kv)
  obtain k v where p: "p = (k, v)" by (cases p)
  show ?case
    using Cons.IH [of "AList.update k (PyStr v) d"] dom_update [of k "PyStr v" d]
    by (auto simp: p)
qed

lemma dict_update_distinct:
  "distinct (map fst d) \<Longrightarrow> distinct (map fst (dict_update d kv))"
  unfolding dict_update_def
proof (induction kv arbitrary: d)
  case Nil
  then show ?case by simp
next
  case (Cons p kv)
  obtain k v where p: "p = (k, v)" by (cases p)
  show ?case
    using Cons.IH [of "AList.update k (PyStr v) d"] Cons.prems
    by (simp add: p distinct_update)
qed

lemma convert_timestamp_keys:
  "''log_timestamp'' \<in> set (map fst d) \<Longrightarrow> map fst (convert_timestamp d) = map fst d"
  unfolding convert_timestamp_def by (rule keys_update_present)

lemma set_flag_keys: "map fst (set_flag d f) = map fst d"
  by (simp add: set_flag_def keys_update_present)

lemma set_flags_keys: "map fst (foldl set_flag d fs) = map fst d"
  by (induction fs arbitrary: d) (simp_all add: set_flag_keys)

lemma set_flag_map_of:
  "map_of (set_flag d f) k =
     (if k = f \<and> f \<in> set (map fst d) then Some (PyStr ''1'') else map_of d k)"
  by (simp add: set_flag_def update_conv')

lemma set_flags_map_of:
  "map_of (foldl set_flag d fs) k =
     (if k \<in> set fs \<and> k \<in> set (map fst d) then Some (PyStr ''1'') else map_of d k)"
proof (induction fs arbitrary: d)
  case Nil
  then show ?case by simp
next
  case (Cons f fs)
  show ?case
    using Cons.IH [of "set_flag d f"]
    by (auto simp: set_flag_map_of set_flag_keys)
qed

lemma groupdict_keys: "map fst (groupdict h) = [''pvefw_chain'', ''log_timestamp'', ''action'']"
  by (simp add: groupdict_def)

lemma record_keys_base:
  "take 3 (map fst (dict_update (groupdict h) kv)) = [''pvefw_chain'', ''log_timestamp'', ''action'']"
  using dict_update_keys_take [of 3 "groupdict h" kv] by (simp add: groupdict_def)

lemma timestamp_key_present: "''log_timestamp'' \<in> set (map fst (dict_update (groupdict h) kv))"
  unfolding dict_update_keys by (simp add: groupdict_def)

lemma record_keys:
  "map fst (record_of h kv) = map fst (dict_update (groupdict h) kv)"
  unfolding record_of_def set_flags_keys
  by (rule convert_timestamp_keys [OF timestamp_key_present])

lemma record_distinct: "distinct (map fst (record_of h kv))"
  unfolding record_keys by (rule dict_update_distinct) (simp add: groupdict_def)

lemma map_of_nth:
  "distinct (map fst d) \<Longrightarrow> i < length d \<Longrightarrow> map_of d (fst (d ! i)) = Some (snd (d ! i))"
  by (metis map_of_is_SomeI nth_mem prod.collapse)

lemma parse_line_record:
  "log_pattern (clean_line line) = Some h \<Longrightarrow> parse_kv (kv_pairs h) = Some kv \<Longrightarrow>
     parse_line line = Inr (record_of h kv)"
  by (simp add: parse_line_def)

lemma join_quoted:
  "vs \<noteq> [] \<Longrightarrow> [QUOTE] @ join ([QUOTE] @ '', '' @ [QUOTE]) vs @ [QUOTE] = join '', '' (map quoted vs)"
proof (induction vs)
  case Nil
  then show ?case by simp
next
  case (Cons x xs)
  then show ?case by (cases xs) (auto simp: quoted_def)
qed

lemma insert_sql_quoted:
  "vs \<noteq> [] \<Longrightarrow>
   insert_sql t cols vs =
     ''INSERT INTO '' @ t @ '' ('' @ join '', '' cols @ '') VALUES ('' @
     join '', '' (map quoted vs) @ '');'' @ [LF]"
  using join_quoted [of vs] by (simp add: insert_sql_def)

lemma lower_fixed:
  "lower ''raw_log'' = ''raw_log''" "lower ''pvefw_chain'' = ''pvefw_chain''"
  "lower ''log_timestamp'' = ''log_timestamp''" "lower ''action'' = ''action''"
  by code_simp+

lemma sql_escape_plain:
  "sql_escape ''None'' = ''None''" "sql_escape ''1'' = ''1''"
  by code_simp+

lemma nth2_Cons_map: "1 < length d \<Longrightarrow> (x # map f d) ! 2 = f (d ! 1)"
  by (simp add: numeral_2_eq_2)

lemma record_length: "3 \<le> length (record_of h kv)"
proof -
  have "length (take 3 (map fst (record_of h kv))) = 3"
    unfolding record_keys record_keys_base by simp
  then show ?thesis by simp
qed

lemma record_second_key: "fst (record_of h kv ! 1) = ''log_timestamp''"
proof -
  have "fst (record_of h kv ! 1) = map fst (record_of h kv) ! 1"
    using record_length [of h kv] by simp
  also have "\<dots> = take 3 (map fst (record_of h kv)) ! 1"
    by simp
  also have "\<dots> = ''log_timestamp''"
    unfolding record_keys record_keys_base by simp
  finally show ?thesis .
qed

lemma lower_flags: "map lower flags = [''syn'', ''ack'', ''psh'', ''rst'', ''fin'']"
  by code_simp

lemma lower_flag_not_fixed:
  assumes "flag \<in> set flags"
  shows "lower flag \<notin> {''raw_log'', ''pvefw_chain'', ''log_timestamp'', ''action''}"
proof -
  from assms have "lower flag \<in> set (map lower flags)" by simp
  then show ?thesis unfolding lower_flags by auto
qed

lemma columns_set:
  "set (columns_to_insert d) = insert ''raw_log'' (lower ` set (map fst d))"
  by (auto simp: columns_to_insert_def case_prod_unfold)

lemma nth_Suc_columns:
  "i < length d \<Longrightarrow> columns_to_insert d ! Suc i = lower (fst (d ! i))"
  by (simp add: columns_to_insert_def case_prod_unfold)

lemma nth_Suc_values:
  "i < length d \<Longrightarrow> values_to_insert line d ! Suc i = sql_escape (str (snd (d ! i)))"
  by (simp add: values_to_insert_def case_prod_unfold)

section \<open>Facts about the CREATE TABLE statement\<close>

lemma subscripts_present: "set (''id'' # fixed_columns) \<subseteq> fst ` set column_types"
  by (simp add: fixed_columns_def column_types_def)

lemma create_table_columns_eq:
  "create_table_columns =
     [(''id'', ''INT AUTO_INCREMENT PRIMARY KEY''),
      (''pvefw_chain'', ''VARCHAR(50)''), (''log_timestamp'', ''DATETIME''),
      (''action'', ''VARCHAR(20)''),
      (''in'', ''VARCHAR(20)''), (''physin'', ''VARCHAR(20)''), (''physout'', ''VARCHAR(20)''),
      (''mac'', ''VARCHAR(50)''), (''src'', ''VARCHAR(45)''), (''dst'', ''VARCHAR(45)''),
      (''len'', ''INT''), (''tos'', ''VARCHAR(10)''), (''prec'', ''VARCHAR(10)''),
      (''ttl'', ''INT''), (''id'', ''INT''), (''proto'', ''VARCHAR(10)''), (''spt'', ''INT''),
      (''dpt'', ''INT''), (''window'', ''INT''), (''res'', ''VARCHAR(10)''),
      (''syn'', ''BOOLEAN''), (''urgp'', ''INT''), (''ack'', ''BOOLEAN''),
      (''psh'', ''BOOLEAN''), (''rst'', ''BOOLEAN''), (''fin'', ''BOOLEAN''),
      (''type'', ''INT''), (''code'', ''INT'')]"
  by code_simp

lemma remaining_catalog_columns:
  "drop 4 create_table_columns =
     map (\<lambda>(col, sql_type). (lower col, sql_type))
       (filter (\<lambda>(col, sql_type). col \<notin> set (''id'' # fixed_columns)) column_types)"
  by code_simp

lemma column_lines_text:
  "concat (map column_line create_table_columns) =
     ''    id INT AUTO_INCREMENT PRIMARY KEY,'' @ [LF] @
     ''    pvefw_chain VARCHAR(50),'' @ [LF] @
     ''    log_timestamp DATETIME,'' @ [LF] @
     ''    action VARCHAR(20),'' @ [LF] @
     ''    in VARCHAR(20),'' @ [LF] @
     ''    physin VARCHAR(20),'' @ [LF] @
     ''    physout VARCHAR(20),'' @ [LF] @
     ''    mac VARCHAR(50),'' @ [LF] @
     ''    src VARCHAR(45),'' @ [LF] @
     ''    dst VARCHAR(45),'' @ [LF] @
     ''    len INT,'' @ [LF] @
     ''    tos VARCHAR(10),'' @ [LF] @
     ''    prec VARCHAR(10),'' @ [LF] @
     ''    ttl INT,'' @ [LF] @
     ''    id INT,'' @ [LF] @
     ''    proto VARCHAR(10),'' @ [LF] @
     ''    spt INT,'' @ [LF] @
     ''    dpt INT,'' @ [LF] @
     ''    window INT,'' @ [LF] @
     ''    res VARCHAR(10),'' @ [LF] @
     ''    syn BOOLEAN,'' @ [LF] @
     ''    urgp INT,'' @ [LF] @
     ''    ack BOOLEAN,'' @ [LF] @
     ''    psh BOOLEAN,'' @ [LF] @
     ''    rst BOOLEAN,'' @ [LF] @
     ''    fin BOOLEAN,'' @ [LF] @
     ''    type INT,'' @ [LF] @
     ''    code INT,'' @ [LF]"
  by code_simp

section \<open>The claims\<close>

text \<open>
  C1. A line whose timestamp token is \<^verbatim>\<open>25/Dec/2024:10:00:00 +0000\<close> should give an INSERT
  with the timestamp \<^verbatim>\<open>2024-12-25 10:00:00\<close>. The header pattern asks for a minus sign
  before the four digits of the offset, so the line is skipped as malformed, although
  the conversion that follows the pattern accepts the token and gives that text.
\<close>

theorem positive_offset_line_is_skipped:
  "statement table_name ''PVEFW-HOST-IN 25/Dec/2024:10:00:00 +0000 DROP: IN=eth0 SRC=10.0.0.1'' =
     Inl Header_Mismatch \<and>
   map_option strftime (strptime ''25/Dec/2024:10:00:00 +0000'') = Some ''2024-12-25 10:00:00''"
proof -
  have "parse_line ''PVEFW-HOST-IN 25/Dec/2024:10:00:00 +0000 DROP: IN=eth0 SRC=10.0.0.1'' =
      Inl Header_Mismatch"
    by code_simp
  moreover have "map_option strftime (strptime ''25/Dec/2024:10:00:00 +0000'') =
      Some ''2024-12-25 10:00:00''"
    by code_simp
  ultimately show ?thesis by (simp add: statement_def)
qed

text \<open>
  C2. When the marker \<^verbatim>\<open>PVEFW-HOST-IN\<close> does not occur in a line, the line should be parsed
  unchanged, its chain being its first token. The marker is put in front of whatever the
  split leaves, found or not: the chain of such a line is the marker followed by the
  first token.
\<close>

theorem absent_marker_is_prepended:
  "partition_at ''PVEFW-HOST-IN'' ''PVEFW-HOST-OUT 25/Dec/2024:10:00:00 -0500 DROP: IN=eth0'' = None \<and>
   clean_line ''PVEFW-HOST-OUT 25/Dec/2024:10:00:00 -0500 DROP: IN=eth0'' =
     ''PVEFW-HOST-INPVEFW-HOST-OUT 25/Dec/2024:10:00:00 -0500 DROP: IN=eth0'' \<and>
   parse_line ''PVEFW-HOST-OUT 25/Dec/2024:10:00:00 -0500 DROP: IN=eth0'' =
     Inr [(''pvefw_chain'', PyStr ''PVEFW-HOST-INPVEFW-HOST-OUT''),
          (''log_timestamp'', PyStr ''2024-12-25 10:00:00''),
          (''action'', PyStr ''DROP''), (''IN'', PyStr ''eth0'')]"
  by code_simp



text \<open>
  C4. A line whose header matches and whose key-value tail has a token without \<^verbatim>\<open>=\<close> is
  skipped as a whole: it gives no INSERT statement, it adds nothing to the output, and the
  lines around it are converted as if it were not there.
\<close>

theorem kv_mismatch_skipped:
  assumes "log_pattern (clean_line line) = Some h"
    and "tok \<in> set (split_ws (kv_pairs h))" and "CHR ''='' \<notin> set tok"
  shows "statement t line = Inl KV_Mismatch \<and> emitted t line = [] \<and>
         f_out (convert_lines i out t (before @ line # after)) =
           f_out (convert_lines i out t (before @ after))"
proof -
  have "parse_kv (kv_pairs h) = None"
    using assms(2,3) by (rule parse_kv_None)
  with assms(1) have "statement t line = Inl KV_Mismatch"
    by (simp add: statement_def parse_line_def)
  then show ?thesis
    by (simp add: emitted_def f_out_convert_lines)
qed

theorem kv_mismatch_skipped_witness:
  "log_pattern (clean_line ''PVEFW-HOST-IN 25/Dec/2024:10:00:00 -0500 DROP: IN=eth0 SYN'') =
     Some \<lparr>pvefw_chain = ''PVEFW-HOST-IN'', log_timestamp = ''25/Dec/2024:10:00:00 -0500'',
           action = ''DROP'', kv_pairs = ''IN=eth0 SYN''\<rparr> \<and>
   split_ws ''IN=eth0 SYN'' = [''IN=eth0'', ''SYN''] \<and>
   statement ''fw'' ''PVEFW-HOST-IN 25/Dec/2024:10:00:00 -0500 DROP: IN=eth0 SYN'' = Inl KV_Mismatch \<and>
   emitted ''fw'' ''PVEFW-HOST-IN 25/Dec/2024:10:00:00 -0500 DROP: IN=eth0 SYN'' = [] \<and>
   f_out (convert_lines ''in.log'' ''out.sql'' ''fw''
            [''PVEFW-HOST-IN 25/Dec/2024:10:00:00 -0500 DROP: IN=eth0 SYN'']) =
     f_out (convert_lines ''in.log'' ''out.sql'' ''fw'' [])"
proof -
  have h: "log_pattern (clean_line ''PVEFW-HOST-IN 25/Dec/2024:10:00:00 -0500 DROP: IN=eth0 SYN'') =
     Some \<lparr>pvefw_chain = ''PVEFW-HOST-IN'', log_timestamp = ''25/Dec/2024:10:00:00 -0500'',
           action = ''DROP'', kv_pairs = ''IN=eth0 SYN''\<rparr>"
    by code_simp
  have w: "split_ws ''IN=eth0 SYN'' = [''IN=eth0'', ''SYN'']"
    by code_simp
  have "''SYN'' \<in> set (split_ws (kv_pairs \<lparr>pvefw_chain = ''PVEFW-HOST-IN'',
      log_timestamp = ''25/Dec/2024:10:00:00 -0500'', action = ''DROP'', kv_pairs = ''IN=eth0 SYN''\<rparr>))"
    using w by simp
  from kv_mismatch_skipped [OF h this, of "''fw''" "''in.log''" "''out.sql''" "[]" "[]"] h w
  show ?thesis by simp
qed

text \<open>
  C5, as the code has it. The timestamp is converted after the key-value tail has been
  parsed. For a line whose header matches and whose key-value tail parses, when
  \<^verbatim>\<open>strptime\<close> fails on the text that \<^verbatim>\<open>data['log_timestamp']\<close> holds, the line is not
  skipped: its INSERT statement is written, the record holds \<^verbatim>\<open>None\<close> under
  \<^verbatim>\<open>log_timestamp\<close>, and the third value of the statement, the one of the column
  \<^verbatim>\<open>log_timestamp\<close>, is the text \<^verbatim>\<open>None\<close> between single quotes, not a SQL NULL. The
  claim as written (every line whose header matches and whose timestamp cannot be
  converted is written) fails for a line whose tail has a token without \<^verbatim>\<open>=\<close>: it is
  skipped before the conversion.
\<close>

theorem unparsed_timestamp_is_None:
  assumes "log_pattern (clean_line line) = Some h" and "parse_kv (kv_pairs h) = Some kv"
    and "map_of (dict_update (groupdict h) kv) ''log_timestamp'' = Some (PyStr ts)"
    and "strptime ts = None"
  shows "\<exists>data. parse_line line = Inr data \<and> map_of data ''log_timestamp'' = Some PyNone \<and>
           columns_to_insert data ! 2 = ''log_timestamp'' \<and>
           values_to_insert line data ! 2 = ''None'' \<and>
           map quoted (values_to_insert line data) ! 2 = [QUOTE] @ ''None'' @ [QUOTE] \<and>
           statement t line =
             Inr (''INSERT INTO '' @ t @ '' ('' @ join '', '' (columns_to_insert data) @
                  '') VALUES ('' @ join '', '' (map quoted (values_to_insert line data)) @
                  '');'' @ [LF])"
proof -
  let ?D = "dict_update (groupdict h) kv"
  let ?data = "record_of h kv"
  have p: "parse_line line = Inr ?data"
    using assms(1,2) by (rule parse_line_record)
  have "map_of (convert_timestamp ?D) ''log_timestamp'' = Some PyNone"
    unfolding convert_timestamp_def update_conv' using assms(3,4) by simp
  moreover have "''log_timestamp'' \<notin> set flags"
    by (simp add: flags_def)
  ultimately have m: "map_of ?data ''log_timestamp'' = Some PyNone"
    unfolding record_of_def set_flags_map_of by simp
  have len: "1 < length ?data"
    using record_length [of h kv] by simp
  have "map_of ?data (fst (?data ! 1)) = Some (snd (?data ! 1))"
    using record_distinct len by (rule map_of_nth)
  then have s: "snd (?data ! 1) = PyNone"
    unfolding record_second_key m by simp
  have c: "columns_to_insert ?data ! 2 = ''log_timestamp''"
    unfolding columns_to_insert_def nth2_Cons_map [OF len]
    by (simp only: case_prod_unfold record_second_key lower_fixed)
  have v: "values_to_insert line ?data ! 2 = ''None''"
    unfolding values_to_insert_def nth2_Cons_map [OF len]
    by (simp only: case_prod_unfold s str.simps sql_escape_plain)
  have "2 < length (values_to_insert line ?data)"
    using record_length [of h kv] by (simp add: values_to_insert_def)
  then have q: "map quoted (values_to_insert line ?data) ! 2 = [QUOTE] @ ''None'' @ [QUOTE]"
    by (simp only: nth_map v quoted_def)
  have "statement t line =
      Inr (insert_sql t (columns_to_insert ?data) (values_to_insert line ?data))"
    unfolding statement_def p by simp
  also have "insert_sql t (columns_to_insert ?data) (values_to_insert line ?data) =
      ''INSERT INTO '' @ t @ '' ('' @ join '', '' (columns_to_insert ?data) @
      '') VALUES ('' @ join '', '' (map quoted (values_to_insert line ?data)) @ '');'' @ [LF]"
    by (rule insert_sql_quoted) (simp add: values_to_insert_def)
  finally have st: "statement t line =
      Inr (''INSERT INTO '' @ t @ '' ('' @ join '', '' (columns_to_insert ?data) @
      '') VALUES ('' @ join '', '' (map quoted (values_to_insert line ?data)) @ '');'' @ [LF])" .
  show ?thesis
    by (rule exI [of _ ?data]) (intro conjI p m c v q st)
qed


theorem unparsed_timestamp_is_None_witness:
  "log_pattern (clean_line ''PVEFW-HOST-IN 31/Feb/2024:10:00:00 -0500 DROP: IN=eth0'') =
     Some \<lparr>pvefw_chain = ''PVEFW-HOST-IN'', log_timestamp = ''31/Feb/2024:10:00:00 -0500'',
           action = ''DROP'', kv_pairs = ''IN=eth0''\<rparr> \<and>
   parse_kv ''IN=eth0'' = Some [(''IN'', ''eth0'')] \<and>
   strptime ''31/Feb/2024:10:00:00 -0500'' = None \<and>
   (\<exists>data. parse_line ''PVEFW-HOST-IN 31/Feb/2024:10:00:00 -0500 DROP: IN=eth0'' = Inr data \<and>
      map_of data ''log_timestamp'' = Some PyNone \<and>
      map quoted (values_to_insert ''PVEFW-HOST-IN 31/Feb/2024:10:00:00 -0500 DROP: IN=eth0'' data) ! 2 =
        [QUOTE] @ ''None'' @ [QUOTE]) \<and>
   statement ''fw'' ''PVEFW-HOST-IN 31/Feb/2024:10:00:00 -0500 DROP: IN=eth0'' =
     Inr (''INSERT INTO fw (raw_log, pvefw_chain, log_timestamp, action, in) VALUES '' @
          ''('PVEFW-HOST-IN 31/Feb/2024:10:00:00 -0500 DROP: IN=eth0', 'PVEFW-HOST-IN', 'None', 'DROP', 'eth0');'' @
          [LF])"
proof -
  let ?h = "\<lparr>pvefw_chain = ''PVEFW-HOST-IN'', log_timestamp = ''31/Feb/2024:10:00:00 -0500'',
           action = ''DROP'', kv_pairs = ''IN=eth0''\<rparr>"
  have h: "log_pattern (clean_line ''PVEFW-HOST-IN 31/Feb/2024:10:00:00 -0500 DROP: IN=eth0'') = Some ?h"
    by code_simp
  have kv: "parse_kv ''IN=eth0'' = Some [(''IN'', ''eth0'')]"
    by code_simp
  have kv': "parse_kv (kv_pairs ?h) = Some [(''IN'', ''eth0'')]"
    using kv by simp
  have ts: "map_of (dict_update (groupdict ?h) [(''IN'', ''eth0'')]) ''log_timestamp'' =
      Some (PyStr ''31/Feb/2024:10:00:00 -0500'')"
    by code_simp
  have f: "strptime ''31/Feb/2024:10:00:00 -0500'' = None"
    by code_simp
  have e: "statement ''fw'' ''PVEFW-HOST-IN 31/Feb/2024:10:00:00 -0500 DROP: IN=eth0'' =
     Inr (''INSERT INTO fw (raw_log, pvefw_chain, log_timestamp, action, in) VALUES '' @
          ''('PVEFW-HOST-IN 31/Feb/2024:10:00:00 -0500 DROP: IN=eth0', 'PVEFW-HOST-IN', 'None', 'DROP', 'eth0');'' @
          [LF])"
    by code_simp
  from unparsed_timestamp_is_None [OF h kv' ts f, of "''fw''"]
  have "\<exists>data. parse_line ''PVEFW-HOST-IN 31/Feb/2024:10:00:00 -0500 DROP: IN=eth0'' = Inr data \<and>
      map_of data ''log_timestamp'' = Some PyNone \<and>
      map quoted (values_to_insert ''PVEFW-HOST-IN 31/Feb/2024:10:00:00 -0500 DROP: IN=eth0'' data) ! 2 =
        [QUOTE] @ ''None'' @ [QUOTE]"
    by blast
  with h kv f e show ?thesis by blast
qed

theorem bad_timestamp_with_bad_tail_counterexample:
  "log_pattern (clean_line ''PVEFW-HOST-IN 31/Feb/2024:10:00:00 -0500 DROP: IN=eth0 SYN'') =
     Some \<lparr>pvefw_chain = ''PVEFW-HOST-IN'', log_timestamp = ''31/Feb/2024:10:00:00 -0500'',
           action = ''DROP'', kv_pairs = ''IN=eth0 SYN''\<rparr> \<and>
   strptime ''31/Feb/2024:10:00:00 -0500'' = None \<and>
   statement ''fw'' ''PVEFW-HOST-IN 31/Feb/2024:10:00:00 -0500 DROP: IN=eth0 SYN'' =
     Inl KV_Mismatch \<and>
   emitted ''fw'' ''PVEFW-HOST-IN 31/Feb/2024:10:00:00 -0500 DROP: IN=eth0 SYN'' = []"
  by code_simp

text \<open>
  C6, as the code has it. The test \<^verbatim>\<open>flag in data\<close> compares keys as they are written,
  and the column names are the keys in lower case. For each of \<^verbatim>\<open>SYN\<close>, \<^verbatim>\<open>ACK\<close>, \<^verbatim>\<open>PSH\<close>,
  \<^verbatim>\<open>RST\<close> and \<^verbatim>\<open>FIN\<close> and every line that is converted: when the flag is a key of the
  line's pairs, the record holds \<^verbatim>\<open>1\<close> under it, and the INSERT statement has the
  lower-cased flag as a column with the value \<^verbatim>\<open>1\<close> at the same place; when no key of the
  line's pairs is the flag in any spelling of upper and lower case, the statement has no
  such column. The claim as written (no such column whenever the flag is not a key) fails
  for a line with the key \<^verbatim>\<open>syn\<close>: the flag \<^verbatim>\<open>SYN\<close> is not among its keys, and the column
  \<^verbatim>\<open>syn\<close> is in its column list.
\<close>

theorem flag_columns:
  assumes "log_pattern (clean_line line) = Some h" and "parse_kv (kv_pairs h) = Some kv"
    and "flag \<in> set flags"
  shows "\<exists>data. parse_line line = Inr data \<and>
           (flag \<in> fst ` set kv \<longrightarrow>
              map_of data flag = Some (PyStr ''1'') \<and>
              (\<exists>i<length data. data ! i = (flag, PyStr ''1'') \<and>
                 columns_to_insert data ! Suc i = lower flag \<and>
                 values_to_insert line data ! Suc i = ''1'')) \<and>
           (lower flag \<notin> lower ` fst ` set kv \<longrightarrow> lower flag \<notin> set (columns_to_insert data))"
proof -
  let ?D = "dict_update (groupdict h) kv"
  let ?data = "record_of h kv"
  have p: "parse_line line = Inr ?data"
    using assms(1,2) by (rule parse_line_record)
  have keys: "set (map fst ?data) = {''pvefw_chain'', ''log_timestamp'', ''action''} \<union> fst ` set kv"
    unfolding record_keys dict_update_keys groupdict_keys by simp
  have present: "map_of ?data flag = Some (PyStr ''1'') \<and>
      (\<exists>i<length ?data. ?data ! i = (flag, PyStr ''1'') \<and>
         columns_to_insert ?data ! Suc i = lower flag \<and>
         values_to_insert line ?data ! Suc i = ''1'')" if "flag \<in> fst ` set kv"
  proof -
    from that have "flag \<in> set (map fst ?D)"
      unfolding dict_update_keys by simp
    then have "flag \<in> set (map fst (convert_timestamp ?D))"
      by (simp only: convert_timestamp_keys [OF timestamp_key_present])
    with assms(3) have m: "map_of ?data flag = Some (PyStr ''1'')"
      unfolding record_of_def set_flags_map_of by simp
    then have "(flag, PyStr ''1'') \<in> set ?data"
      by (rule map_of_SomeD)
    then obtain i where i: "i < length ?data" "?data ! i = (flag, PyStr ''1'')"
      by (auto simp: in_set_conv_nth)
    have "columns_to_insert ?data ! Suc i = lower flag"
      using i by (simp add: nth_Suc_columns)
    moreover have "values_to_insert line ?data ! Suc i = ''1''"
      using i by (simp add: nth_Suc_values sql_escape_plain)
    ultimately show ?thesis using m i by blast
  qed
  have absent: "lower flag \<notin> set (columns_to_insert ?data)"
    if "lower flag \<notin> lower ` fst ` set kv"
    using that lower_flag_not_fixed [OF assms(3)]
    unfolding columns_set keys by (auto simp: lower_fixed)
  from p present absent show ?thesis by blast
qed


theorem flag_columns_witness:
  "log_pattern (clean_line ''PVEFW-HOST-IN 25/Dec/2024:10:00:00 -0500 DROP: IN=eth0 SYN=x'') =
     Some \<lparr>pvefw_chain = ''PVEFW-HOST-IN'', log_timestamp = ''25/Dec/2024:10:00:00 -0500'',
           action = ''DROP'', kv_pairs = ''IN=eth0 SYN=x''\<rparr> \<and>
   parse_kv ''IN=eth0 SYN=x'' = Some [(''IN'', ''eth0''), (''SYN'', ''x'')] \<and>
   ''SYN'' \<in> set flags \<and> ''ACK'' \<in> set flags \<and>
   parse_line ''PVEFW-HOST-IN 25/Dec/2024:10:00:00 -0500 DROP: IN=eth0 SYN=x'' =
     Inr [(''pvefw_chain'', PyStr ''PVEFW-HOST-IN''),
          (''log_timestamp'', PyStr ''2024-12-25 10:00:00''),
          (''action'', PyStr ''DROP''), (''IN'', PyStr ''eth0''), (''SYN'', PyStr ''1'')] \<and>
   map_of [(''pvefw_chain'', PyStr ''PVEFW-HOST-IN''),
           (''log_timestamp'', PyStr ''2024-12-25 10:00:00''),
           (''action'', PyStr ''DROP''), (''IN'', PyStr ''eth0''), (''SYN'', PyStr ''1'')] ''SYN'' =
     Some (PyStr ''1'') \<and>
   ''ack'' \<notin> set (columns_to_insert
     [(''pvefw_chain'', PyStr ''PVEFW-HOST-IN''),
      (''log_timestamp'', PyStr ''2024-12-25 10:00:00''),
      (''action'', PyStr ''DROP''), (''IN'', PyStr ''eth0''), (''SYN'', PyStr ''1'')])"
proof -
  let ?L = "''PVEFW-HOST-IN 25/Dec/2024:10:00:00 -0500 DROP: IN=eth0 SYN=x''"
  let ?h = "\<lparr>pvefw_chain = ''PVEFW-HOST-IN'', log_timestamp = ''25/Dec/2024:10:00:00 -0500'',
           action = ''DROP'', kv_pairs = ''IN=eth0 SYN=x''\<rparr>"
  let ?kv = "[(''IN'', ''eth0''), (''SYN'', ''x'')]"
  let ?D = "[(''pvefw_chain'', PyStr ''PVEFW-HOST-IN''),
          (''log_timestamp'', PyStr ''2024-12-25 10:00:00''),
          (''action'', PyStr ''DROP''), (''IN'', PyStr ''eth0''), (''SYN'', PyStr ''1'')]"
  have h: "log_pattern (clean_line ?L) = Some ?h" by code_simp
  have kv: "parse_kv ''IN=eth0 SYN=x'' = Some ?kv" by code_simp
  have kv': "parse_kv (kv_pairs ?h) = Some ?kv" using kv by simp
  have syn: "''SYN'' \<in> set flags" and ack: "''ACK'' \<in> set flags"
    by (simp_all add: flags_def)
  have p: "parse_line ?L = Inr ?D" by code_simp
  have 1: "''SYN'' \<in> fst ` set ?kv" by simp
  have "lower ''ACK'' = ''ack''" "map lower (map fst ?kv) = [''in'', ''syn'']" by code_simp+
  then have 2: "lower ''ACK'' \<notin> lower ` fst ` set ?kv" "lower ''ACK'' = ''ack''"
    by (simp_all add: image_image)
  from flag_columns [OF h kv' syn] p 1 have a: "map_of ?D ''SYN'' = Some (PyStr ''1'')"
    by auto
  from flag_columns [OF h kv' ack] p 2 have b: "''ack'' \<notin> set (columns_to_insert ?D)"
    by auto
  from h kv syn ack p a b show ?thesis by blast
qed

theorem lower_case_flag_key_counterexample:
  "map_option (map fst) (parse_kv ''IN=eth0 syn=0'') = Some [''IN'', ''syn''] \<and>
   ''SYN'' \<notin> set [''IN'', ''syn''] \<and>
   parse_line ''PVEFW-HOST-IN 25/Dec/2024:10:00:00 -0500 DROP: IN=eth0 syn=0'' =
     Inr [(''pvefw_chain'', PyStr ''PVEFW-HOST-IN''),
          (''log_timestamp'', PyStr ''2024-12-25 10:00:00''),
          (''action'', PyStr ''DROP''), (''IN'', PyStr ''eth0''), (''syn'', PyStr ''0'')] \<and>
   columns_to_insert
     [(''pvefw_chain'', PyStr ''PVEFW-HOST-IN''),
      (''log_timestamp'', PyStr ''2024-12-25 10:00:00''),
      (''action'', PyStr ''DROP''), (''IN'', PyStr ''eth0''), (''syn'', PyStr ''0'')] =
     [''raw_log'', ''pvefw_chain'', ''log_timestamp'', ''action'', ''in'', ''syn''] \<and>
   lower ''SYN'' = ''syn''"
  by code_simp

text \<open>
  C7. For every table name the CREATE TABLE IF NOT EXISTS statement is the text below:
  the surrogate key \<^verbatim>\<open>id\<close>, then \<^verbatim>\<open>pvefw_chain\<close>, \<^verbatim>\<open>log_timestamp\<close> and \<^verbatim>\<open>action\<close>, then
  every other column of the catalog in the catalog's order under its lower-cased name,
  then \<^verbatim>\<open>raw_log TEXT\<close>. It is written once, before anything else, whatever the lines
  of the input are. (The catalog column \<^verbatim>\<open>ID\<close> is listed as \<^verbatim>\<open>id\<close>, the name of the
  surrogate key.)
\<close>

theorem create_table_statement:
  "create_table_sql table_name =
     ''-- Auto-generated CREATE TABLE statement for PVE Firewall logs'' @ [LF] @
     ''CREATE TABLE IF NOT EXISTS '' @ table_name @ '' ('' @ [LF] @
     ''    id INT AUTO_INCREMENT PRIMARY KEY,'' @ [LF] @
     ''    pvefw_chain VARCHAR(50),'' @ [LF] @
     ''    log_timestamp DATETIME,'' @ [LF] @
     ''    action VARCHAR(20),'' @ [LF] @
     ''    in VARCHAR(20),'' @ [LF] @
     ''    physin VARCHAR(20),'' @ [LF] @
     ''    physout VARCHAR(20),'' @ [LF] @
     ''    mac VARCHAR(50),'' @ [LF] @
     ''    src VARCHAR(45),'' @ [LF] @
     ''    dst VARCHAR(45),'' @ [LF] @
     ''    len INT,'' @ [LF] @
     ''    tos VARCHAR(10),'' @ [LF] @
     ''    prec VARCHAR(10),'' @ [LF] @
     ''    ttl INT,'' @ [LF] @
     ''    id INT,'' @ [LF] @
     ''    proto VARCHAR(10),'' @ [LF] @
     ''    spt INT,'' @ [LF] @
     ''    dpt INT,'' @ [LF] @
     ''    window INT,'' @ [LF] @
     ''    res VARCHAR(10),'' @ [LF] @
     ''    syn BOOLEAN,'' @ [LF] @
     ''    urgp INT,'' @ [LF] @
     ''    ack BOOLEAN,'' @ [LF] @
     ''    psh BOOLEAN,'' @ [LF] @
     ''    rst BOOLEAN,'' @ [LF] @
     ''    fin BOOLEAN,'' @ [LF] @
     ''    type INT,'' @ [LF] @
     ''    code INT,'' @ [LF] @
     ''    raw_log TEXT'' @ [LF] @
     '');'' @ [LF, LF] \<and>
   create_table_columns =
     [(''id'', ''INT AUTO_INCREMENT PRIMARY KEY''),
      (''pvefw_chain'', ''VARCHAR(50)''), (''log_timestamp'', ''DATETIME''),
      (''action'', ''VARCHAR(20)'')] @
     map (\<lambda>(col, sql_type). (lower col, sql_type))
       (filter (\<lambda>(col, sql_type). col \<notin> set (''id'' # fixed_columns)) column_types) \<and>
   map fst create_table_columns =
     [''id'', ''pvefw_chain'', ''log_timestamp'', ''action'', ''in'', ''physin'', ''physout'',
      ''mac'', ''src'', ''dst'', ''len'', ''tos'', ''prec'', ''ttl'', ''id'', ''proto'', ''spt'',
      ''dpt'', ''window'', ''res'', ''syn'', ''urgp'', ''ack'', ''psh'', ''rst'', ''fin'',
      ''type'', ''code''] \<and>
   f_out (convert_lines input_file output_file table_name lines) =
     create_table_sql table_name @ ''-- DML to insert data'' @ [LF] @
     concat (map (emitted table_name) lines)"
proof -
  have sql: "create_table_sql table_name =
     ''-- Auto-generated CREATE TABLE statement for PVE Firewall logs'' @ [LF] @
     ''CREATE TABLE IF NOT EXISTS '' @ table_name @ '' ('' @ [LF] @
     ''    id INT AUTO_INCREMENT PRIMARY KEY,'' @ [LF] @
     ''    pvefw_chain VARCHAR(50),'' @ [LF] @
     ''    log_timestamp DATETIME,'' @ [LF] @
     ''    action VARCHAR(20),'' @ [LF] @
     ''    in VARCHAR(20),'' @ [LF] @
     ''    physin VARCHAR(20),'' @ [LF] @
     ''    physout VARCHAR(20),'' @ [LF] @
     ''    mac VARCHAR(50),'' @ [LF] @
     ''    src VARCHAR(45),'' @ [LF] @
     ''    dst VARCHAR(45),'' @ [LF] @
     ''    len INT,'' @ [LF] @
     ''    tos VARCHAR(10),'' @ [LF] @
     ''    prec VARCHAR(10),'' @ [LF] @
     ''    ttl INT,'' @ [LF] @
     ''    id INT,'' @ [LF] @
     ''    proto VARCHAR(10),'' @ [LF] @
     ''    spt INT,'' @ [LF] @
     ''    dpt INT,'' @ [LF] @
     ''    window INT,'' @ [LF] @
     ''    res VARCHAR(10),'' @ [LF] @
     ''    syn BOOLEAN,'' @ [LF] @
     ''    urgp INT,'' @ [LF] @
     ''    ack BOOLEAN,'' @ [LF] @
     ''    psh BOOLEAN,'' @ [LF] @
     ''    rst BOOLEAN,'' @ [LF] @
     ''    fin BOOLEAN,'' @ [LF] @
     ''    type INT,'' @ [LF] @
     ''    code INT,'' @ [LF] @
     ''    raw_log TEXT'' @ [LF] @
     '');'' @ [LF, LF]"
    unfolding create_table_sql_def column_lines_text by (simp only: append_assoc)
  have "create_table_columns = take 4 create_table_columns @ drop 4 create_table_columns"
    by simp
  also have "take 4 create_table_columns =
      [(''id'', ''INT AUTO_INCREMENT PRIMARY KEY''),
       (''pvefw_chain'', ''VARCHAR(50)''), (''log_timestamp'', ''DATETIME''),
       (''action'', ''VARCHAR(20)'')]"
    by (simp add: create_table_columns_eq)
  finally have catalog: "create_table_columns =
      [(''id'', ''INT AUTO_INCREMENT PRIMARY KEY''),
       (''pvefw_chain'', ''VARCHAR(50)''), (''log_timestamp'', ''DATETIME''),
       (''action'', ''VARCHAR(20)'')] @
      map (\<lambda>(col, sql_type). (lower col, sql_type))
        (filter (\<lambda>(col, sql_type). col \<notin> set (''id'' # fixed_columns)) column_types)"
    by (simp only: remaining_catalog_columns)
  have names: "map fst create_table_columns =
     [''id'', ''pvefw_chain'', ''log_timestamp'', ''action'', ''in'', ''physin'', ''physout'',
      ''mac'', ''src'', ''dst'', ''len'', ''tos'', ''prec'', ''ttl'', ''id'', ''proto'', ''spt'',
      ''dpt'', ''window'', ''res'', ''syn'', ''urgp'', ''ack'', ''psh'', ''rst'', ''fin'',
      ''type'', ''code'']"
    by (simp add: create_table_columns_eq)
  have out: "f_out (convert_lines input_file output_file table_name lines) =
     create_table_sql table_name @ ''-- DML to insert data'' @ [LF] @
     concat (map (emitted table_name) lines)"
    unfolding f_out_convert_lines dml_comment_def by (simp only: append_assoc)
  from sql catalog names out show ?thesis by (intro conjI)
qed

text \<open>
  C8, as the code has it. The INSERT statement of a converted line lists \<^verbatim>\<open>raw_log\<close>
  first, then the keys of the record in lower case, in the record's order; the value of
  \<^verbatim>\<open>raw_log\<close> is the line with the whitespace at both ends removed and every single quote
  doubled, and every other value is the record's value with every single quote doubled;
  each value stands between single quotes. The claim as written (the value of
  \<^verbatim>\<open>raw_log\<close> is the original line with its quotes doubled) fails for a line that begins
  with a blank.
\<close>

theorem insert_statement_shape:
  assumes "parse_line line = Inr data"
  shows "columns_to_insert data = ''raw_log'' # map (lower \<circ> fst) data \<and>
         values_to_insert line data = sql_escape (strip line) # map (sql_escape \<circ> str \<circ> snd) data \<and>
         statement t line =
           Inr (''INSERT INTO '' @ t @ '' ('' @ join '', '' (''raw_log'' # map (lower \<circ> fst) data) @
                '') VALUES ('' @
                join '', '' (map quoted (sql_escape (strip line) # map (sql_escape \<circ> str \<circ> snd) data)) @
                '');'' @ [LF])"
proof -
  have c: "columns_to_insert data = ''raw_log'' # map (lower \<circ> fst) data"
    by (simp add: columns_to_insert_def case_prod_unfold comp_def)
  have v: "values_to_insert line data = sql_escape (strip line) # map (sql_escape \<circ> str \<circ> snd) data"
    by (simp add: values_to_insert_def case_prod_unfold comp_def)
  have "statement t line = Inr (insert_sql t (columns_to_insert data) (values_to_insert line data))"
    using assms by (simp add: statement_def)
  also have "insert_sql t (columns_to_insert data) (values_to_insert line data) =
      ''INSERT INTO '' @ t @ '' ('' @ join '', '' (columns_to_insert data) @
      '') VALUES ('' @ join '', '' (map quoted (values_to_insert line data)) @ '');'' @ [LF]"
    by (rule insert_sql_quoted) (simp add: values_to_insert_def)
  finally show ?thesis
    unfolding c v using c v by simp
qed

theorem insert_statement_shape_witness:
  "parse_line (''  host PVEFW-HOST-IN 25/Dec/2024:10:00:00 -0500 DROP: IN=eth0 MAC=o'neil '' @ [LF]) =
     Inr [(''pvefw_chain'', PyStr ''PVEFW-HOST-IN''),
          (''log_timestamp'', PyStr ''2024-12-25 10:00:00''),
          (''action'', PyStr ''DROP''), (''IN'', PyStr ''eth0''), (''MAC'', PyStr ''o'neil'')] \<and>
   statement ''fw''
     (''  host PVEFW-HOST-IN 25/Dec/2024:10:00:00 -0500 DROP: IN=eth0 MAC=o'neil '' @ [LF]) =
     Inr (''INSERT INTO fw (raw_log, pvefw_chain, log_timestamp, action, in, mac) VALUES '' @
          ''('host PVEFW-HOST-IN 25/Dec/2024:10:00:00 -0500 DROP: IN=eth0 MAC=o'' @ [QUOTE, QUOTE] @
          ''neil', 'PVEFW-HOST-IN', '2024-12-25 10:00:00', 'DROP', 'eth0', 'o'' @ [QUOTE, QUOTE] @
          ''neil');'' @ [LF])"
proof -
  let ?L = "''  host PVEFW-HOST-IN 25/Dec/2024:10:00:00 -0500 DROP: IN=eth0 MAC=o'neil '' @ [LF]"
  let ?D = "[(''pvefw_chain'', PyStr ''PVEFW-HOST-IN''),
          (''log_timestamp'', PyStr ''2024-12-25 10:00:00''),
          (''action'', PyStr ''DROP''), (''IN'', PyStr ''eth0''), (''MAC'', PyStr ''o'neil'')]"
  have p: "parse_line ?L = Inr ?D" by code_simp
  have e: "''INSERT INTO '' @ ''fw'' @ '' ('' @ join '', '' (''raw_log'' # map (lower \<circ> fst) ?D) @
                '') VALUES ('' @
                join '', '' (map quoted (sql_escape (strip ?L) # map (sql_escape \<circ> str \<circ> snd) ?D)) @
                '');'' @ [LF] =
      ''INSERT INTO fw (raw_log, pvefw_chain, log_timestamp, action, in, mac) VALUES '' @
          ''('host PVEFW-HOST-IN 25/Dec/2024:10:00:00 -0500 DROP: IN=eth0 MAC=o'' @ [QUOTE, QUOTE] @
          ''neil', 'PVEFW-HOST-IN', '2024-12-25 10:00:00', 'DROP', 'eth0', 'o'' @ [QUOTE, QUOTE] @
          ''neil');'' @ [LF]"
    by code_simp
  from insert_statement_shape [OF p, of "''fw''"] have "statement ''fw'' ?L =
      Inr (''INSERT INTO '' @ ''fw'' @ '' ('' @ join '', '' (''raw_log'' # map (lower \<circ> fst) ?D) @
                '') VALUES ('' @
                join '', '' (map quoted (sql_escape (strip ?L) # map (sql_escape \<circ> str \<circ> snd) ?D)) @
                '');'' @ [LF])"
    by blast
  with p show ?thesis unfolding e by blast
qed

theorem raw_log_is_stripped_counterexample:
  "parse_line '' PVEFW-HOST-IN 25/Dec/2024:10:00:00 -0500 DROP: IN=eth0'' =
     Inr [(''pvefw_chain'', PyStr ''PVEFW-HOST-IN''),
          (''log_timestamp'', PyStr ''2024-12-25 10:00:00''),
          (''action'', PyStr ''DROP''), (''IN'', PyStr ''eth0'')] \<and>
   hd (values_to_insert '' PVEFW-HOST-IN 25/Dec/2024:10:00:00 -0500 DROP: IN=eth0''
         [(''pvefw_chain'', PyStr ''PVEFW-HOST-IN''),
          (''log_timestamp'', PyStr ''2024-12-25 10:00:00''),
          (''action'', PyStr ''DROP''), (''IN'', PyStr ''eth0'')]) =
     ''PVEFW-HOST-IN 25/Dec/2024:10:00:00 -0500 DROP: IN=eth0'' \<and>
   sql_escape '' PVEFW-HOST-IN 25/Dec/2024:10:00:00 -0500 DROP: IN=eth0'' =
     '' PVEFW-HOST-IN 25/Dec/2024:10:00:00 -0500 DROP: IN=eth0''"
  by code_simp

text \<open>
  C9. When the input file does not exist, the run prints the error and leaves the file
  system as it was: the output file is neither created nor emptied nor written.
\<close>

theorem missing_input_leaves_files:
  assumes "fs input_file = None"
  shows "generate_sql_from_pvefw_log input_file output_file table_name fs =
           (fs, [''Error: The file '' @ [QUOTE] @ input_file @ [QUOTE] @ '' was not found.''])"
  using assms by (simp add: generate_sql_from_pvefw_log_def)

theorem missing_input_leaves_files_witness:
  "[''old.sql'' \<mapsto> ''kept''] ''missing.log'' = None \<and>
   generate_sql_from_pvefw_log ''missing.log'' ''old.sql'' ''fw'' [''old.sql'' \<mapsto> ''kept''] =
     ([''old.sql'' \<mapsto> ''kept''],
      [''Error: The file '' @ [QUOTE] @ ''missing.log'' @ [QUOTE] @ '' was not found.''])"
proof -
  have h: "[''old.sql'' \<mapsto> ''kept''] ''missing.log'' = None" by simp
  from missing_input_leaves_files [where fs = "[''old.sql'' \<mapsto> ''kept'']" and
      input_file = "''missing.log''" and output_file = "''old.sql''" and table_name = "''fw''"] h
  show ?thesis by blast
qed

text \<open>
  C10. A line that is a chain, a timestamp and an action with its colon, followed by
  whitespace only or by nothing, is skipped: stripped of its whitespace it ends with the
  colon, and the pattern asks for whitespace after the colon.
\<close>

theorem empty_tail_is_skipped:
  assumes "chain \<noteq> []" and "list_all (\<lambda>c. \<not> is_space c) chain" and "is_space w1"
    and "list_all2 cls_ok timestamp_pattern ts" and "is_space w2"
    and "act \<noteq> []" and "list_all is_word act" and "list_all is_space trail"
  shows "statement t (chain @ [w1] @ ts @ [w2] @ act @ '':'' @ trail) = Inl Header_Mismatch"
proof -
  let ?hdr = "chain @ [w1] @ ts @ [w2] @ act @ '':''"
  have "list_all (\<lambda>c. \<not> is_space c) act"
    using assms(7) by (auto simp: list_all_iff dest: word_not_space)
  then have "length (filter is_space ?hdr) = 3"
    using assms by (simp add: filter_none timestamp_has_space lit_not_space)
  moreover have "strip (?hdr @ trail) = strip ?hdr"
    using assms(8) by (rule strip_trailing)
  ultimately have "length (filter is_space (strip (?hdr @ trail))) < 4"
    using strip_spaces [of ?hdr] by simp
  then have "log_pattern (clean_line (?hdr @ trail)) = None"
    by (rule few_spaces_skipped)
  then show ?thesis
    using statement_header_mismatch [of "?hdr @ trail" t] by simp
qed

theorem empty_tail_is_skipped_witness:
  "list_all (\<lambda>c. \<not> is_space c) ''PVEFW-HOST-IN'' \<and> is_space (CHR '' '') \<and>
   list_all2 cls_ok timestamp_pattern ''25/Dec/2024:10:00:00 -0500'' \<and>
   list_all is_word ''DROP'' \<and> list_all is_space ('' '' @ [LF]) \<and>
   statement ''fw'' (''PVEFW-HOST-IN'' @ '' '' @ ''25/Dec/2024:10:00:00 -0500'' @ '' '' @
                     ''DROP'' @ '':'' @ '' '' @ [LF]) = Inl Header_Mismatch"
proof -
  have a: "list_all (\<lambda>c. \<not> is_space c) ''PVEFW-HOST-IN''" by code_simp
  have b: "is_space (CHR '' '')" by code_simp
  have c: "list_all2 cls_ok timestamp_pattern ''25/Dec/2024:10:00:00 -0500''" by code_simp
  have d: "list_all is_word ''DROP''" by code_simp
  have e: "list_all is_space ('' '' @ [LF])" by code_simp
  from empty_tail_is_skipped [OF _ a b c b _ d e, of "''fw''"] a b c d e
  show ?thesis by simp
qed

end
